theory Spec2Isabelle
  imports Main
begin

section \<open>gopinyin: the flashcard state machine of main.go\<close>

text \<open>
  The program is a single update function over one model value (main.go, \<open>model.Update\<close>),
  a seed deck (words/words.go) and one outbound call (\<open>fetchExample\<close>). Go strings are
  byte sequences, so a string is a \<open>char list\<close> holding the UTF-8 bytes. Go's \<open>int\<close> is
  modelled by \<open>int\<close>: every integer of the program is an index below the length of a
  slice or a focus position, far from the 64-bit bounds. A run-time panic of Go is the
  \<open>Inl\<close> branch of a sum; \<open>log.Fatal\<close> is the \<open>Fatal\<close> branch of \<open>proc\<close>.
\<close>

subsection \<open>Data\<close>

text \<open>words/words.go: \<open>type Word struct\<close>.\<close>

record Word =
  Pinyin :: string
  Chinese :: string
  Definition :: string
  Example :: string

text \<open>words/words.go: \<open>var ExampleWords\<close>, the seed deck.\<close>

definition ExampleWords :: "Word list" where
  "ExampleWords =
  [
   \<lparr>Pinyin = ''n'' @ [CHR 0xC7, CHR 0x90] @ '' h'' @ [CHR 0xC7, CHR 0x8E] @ ''o'',
    Chinese = [CHR 0xE4, CHR 0xBD, CHR 0xA0, CHR 0xE5, CHR 0xA5, CHR 0xBD],
    Definition = ''Hello'',
    Example = ''''\<rparr>,
   \<lparr>Pinyin = ''xi'' @ [CHR 0xC3, CHR 0xA8] @ '' xi'' @ [CHR 0xC3, CHR 0xA8],
    Chinese = [CHR 0xE8, CHR 0xB0, CHR 0xA2, CHR 0xE8, CHR 0xB0, CHR 0xA2],
    Definition = ''Thank you'',
    Example = ''''\<rparr>,
   \<lparr>Pinyin = ''z'' @ [CHR 0xC7, CHR 0x8E] @ ''o'',
    Chinese = [CHR 0xE6, CHR 0x97, CHR 0xA9],
    Definition = ''Morning'',
    Example = ''Z'' @ [CHR 0xC7, CHR 0x8E] @ ''o, good morning!''\<rparr>,
   \<lparr>Pinyin = ''p'' @ [CHR 0xC3, CHR 0xA9] @ ''ngyou'',
    Chinese = [CHR 0xE6, CHR 0x9C, CHR 0x8B, CHR 0xE5, CHR 0x8F, CHR 0x8B],
    Definition = ''Friend'',
    Example = ''W'' @ [CHR 0xC7, CHR 0x92] @ '' de p'' @ [CHR 0xC3, CHR 0xA9] @ ''ngyou h'' @ [CHR 0xC4, CHR 0x9B] @ ''n h'' @ [CHR 0xC7, CHR 0x8E] @ ''o.''\<rparr>,
   \<lparr>Pinyin = ''ch'' @ [CHR 0xC4, CHR 0xAB] @ '' f'' @ [CHR 0xC3, CHR 0xA0] @ ''n'',
    Chinese = [CHR 0xE5, CHR 0x90, CHR 0x83, CHR 0xE9, CHR 0xA5, CHR 0xAD],
    Definition = ''Eat meal'',
    Example = ''W'' @ [CHR 0xC7, CHR 0x92] @ ''men q'' @ [CHR 0xC3, CHR 0xB9] @ '' ch'' @ [CHR 0xC4, CHR 0xAB] @ '' f'' @ [CHR 0xC3, CHR 0xA0] @ ''n.''\<rparr>,
   \<lparr>Pinyin = ''h'' @ [CHR 0xC7, CHR 0x8E] @ ''o'',
    Chinese = [CHR 0xE5, CHR 0xA5, CHR 0xBD],
    Definition = ''Good'',
    Example = ''H'' @ [CHR 0xC4, CHR 0x9B] @ ''n h'' @ [CHR 0xC7, CHR 0x8E] @ ''o, that'' @ [CHR 0x27] @ ''s good!''\<rparr>,
   \<lparr>Pinyin = ''shu'' @ [CHR 0xC7, CHR 0x90],
    Chinese = [CHR 0xE6, CHR 0xB0, CHR 0xB4],
    Definition = ''Water'',
    Example = ''W'' @ [CHR 0xC7, CHR 0x92] @ '' y'' @ [CHR 0xC3, CHR 0xA0] @ ''o y'' @ [CHR 0xC4, CHR 0xAB] @ '' b'' @ [CHR 0xC4, CHR 0x93] @ ''i shu'' @ [CHR 0xC7, CHR 0x90] @ ''.''\<rparr>,
   \<lparr>Pinyin = [CHR 0xC3, CHR 0xA0] @ ''i'',
    Chinese = [CHR 0xE7, CHR 0x88, CHR 0xB1],
    Definition = ''Love'',
    Example = ''W'' @ [CHR 0xC7, CHR 0x92] @ '' '' @ [CHR 0xC3, CHR 0xA0] @ ''i n'' @ [CHR 0xC7, CHR 0x90] @ '' means I love you.''\<rparr>,
   \<lparr>Pinyin = ''r'' @ [CHR 0xC3, CHR 0xA9] @ ''n'',
    Chinese = [CHR 0xE4, CHR 0xBA, CHR 0xBA],
    Definition = ''Person'',
    Example = ''M'' @ [CHR 0xC4, CHR 0x9B] @ ''i g'' @ [CHR 0xC3, CHR 0xA8] @ '' r'' @ [CHR 0xC3, CHR 0xA9] @ ''n d'' @ [CHR 0xC5, CHR 0x8D] @ ''u b'' @ [CHR 0xC3, CHR 0xB9] @ '' t'' @ [CHR 0xC3, CHR 0xB3] @ ''ng.''\<rparr>,
   \<lparr>Pinyin = ''ji'' @ [CHR 0xC4, CHR 0x81],
    Chinese = [CHR 0xE5, CHR 0xAE, CHR 0xB6],
    Definition = ''Home/Family'',
    Example = ''W'' @ [CHR 0xC7, CHR 0x92] @ '' de ji'' @ [CHR 0xC4, CHR 0x81] @ '' z'' @ [CHR 0xC3, CHR 0xA0] @ ''i B'' @ [CHR 0xC4, CHR 0x9B] @ ''ij'' @ [CHR 0xC4, CHR 0xAB] @ ''ng.''\<rparr>
  ]"

text \<open>
  Modelled from the spec: the text-input widget (package \<open>bubbles/textinput\<close>) is a
  library outside src/. The spec describes it as a text buffer with an input focus, into
  which character keys are routed when it is focused. The model keeps the value, the focus
  flag and the character limit; the cursor is always at the end of the text, and the limit
  counts the elements of the string.
\<close>

record textinput =
  tvalue :: string
  tfocus :: bool
  CharLimit :: nat

text \<open>main.go: \<open>type model struct\<close>.\<close>

record model =
  words :: "Word list"
  currentIndex :: int
  showDetails :: bool
  addingNewCard :: bool
  inputs :: "textinput list"
  focusIndex :: int
  loadingExample :: bool

text \<open>
  The keys of \<open>tea.KeyMsg\<close> that the program or the text input tells apart. A printable
  key, the space bar included, is \<open>KeyRunes\<close> with its text.
\<close>

datatype key =
  KeyCtrlC | KeyEsc | KeyTab | KeyShiftTab | KeyEnter
  | KeyLeft | KeyRight | KeyBackspace | KeyRunes string

text \<open>\<open>msg.String()\<close>, the name the browsing branch switches on.\<close>

fun key_String :: "key \<Rightarrow> string" where
  "key_String KeyCtrlC = ''ctrl+c''"
| "key_String KeyEsc = ''esc''"
| "key_String KeyTab = ''tab''"
| "key_String KeyShiftTab = ''shift+tab''"
| "key_String KeyEnter = ''enter''"
| "key_String KeyLeft = ''left''"
| "key_String KeyRight = ''right''"
| "key_String KeyBackspace = ''backspace''"
| "key_String (KeyRunes rs) = rs"

text \<open>
  main.go: \<open>type ExampleMsg struct {Index; Example; Error}\<close>, with a nil \<open>Error\<close> as
  \<open>None\<close> and a non-nil one as the text that \<open>%v\<close> prints. \<open>OtherMsg\<close> stands for every
  message of the framework that is neither a key nor an \<open>ExampleMsg\<close> (cursor blink,
  window size).
\<close>

datatype msg =
  KeyMsg key
  | ExampleMsg int string "string option"
  | OtherMsg

text \<open>
  The commands \<open>Update\<close> returns: \<open>nil\<close>, \<open>tea.Quit\<close>, the batch of the text inputs'
  commands, and the closure built by \<open>fetchExample(word, index)\<close>.
\<close>

datatype cmd = CmdNil | Quit | Batch | FetchCmd Word int

datatype panic = IndexOutOfRange | DivideByZero

subsection \<open>Go primitives\<close>

text \<open>Indexing a slice panics out of range.\<close>

definition at :: "'a list \<Rightarrow> int \<Rightarrow> panic + 'a" where
  "at xs i = (if 0 \<le> i \<and> i < int (length xs) then Inr (xs ! nat i) else Inl IndexOutOfRange)"

text \<open>Go's \<open>%\<close> truncates towards zero and panics on a zero divisor.\<close>

definition go_rem :: "int \<Rightarrow> int \<Rightarrow> panic + int" where
  "go_rem a b = (if b = 0 then Inl DivideByZero else Inr (sgn a * (\<bar>a\<bar> mod \<bar>b\<bar>)))"

definition len :: "'a list \<Rightarrow> int" where
  "len xs = int (length xs)"

subsection \<open>The text input\<close>

definition textinput_New :: textinput where
  "textinput_New = \<lparr>tvalue = [], tfocus = False, CharLimit = 0\<rparr>"

definition Focus :: "textinput \<Rightarrow> textinput" where
  "Focus t = t\<lparr>tfocus := True\<rparr>"

definition Blur :: "textinput \<Rightarrow> textinput" where
  "Blur t = t\<lparr>tfocus := False\<rparr>"

definition Reset :: "textinput \<Rightarrow> textinput" where
  "Reset t = t\<lparr>tvalue := []\<rparr>"

definition Value :: "textinput \<Rightarrow> string" where
  "Value t = tvalue t"

text \<open>
  Modelled from the spec: the widget's own \<open>Update\<close> on a key (library code, outside src/): nothing when it is not focused; runes are inserted
  up to the character limit (0 is no limit), backspace deletes, and the keys the widget
  has no binding for (Enter, Tab, Shift-Tab, Esc) leave the text as it is.
\<close>

definition insert_runes :: "string \<Rightarrow> textinput \<Rightarrow> textinput" where
  "insert_runes rs t =
     (if CharLimit t = 0 then t\<lparr>tvalue := tvalue t @ rs\<rparr>
      else t\<lparr>tvalue := tvalue t @ take (CharLimit t - length (tvalue t)) rs\<rparr>)"

fun textinput_Update :: "key \<Rightarrow> textinput \<Rightarrow> textinput" where
  "textinput_Update (KeyRunes rs) t = (if tfocus t then insert_runes rs t else t)"
| "textinput_Update KeyBackspace t = (if tfocus t then t\<lparr>tvalue := butlast (tvalue t)\<rparr> else t)"
| "textinput_Update k t = t"

subsection \<open>initialModel\<close>

text \<open>
  main.go, \<open>initialModel\<close>: the seed deck, index 0, four inputs, each created with
  \<open>CharLimit = 50\<close> and \<open>Focus()\<close> called on it. Placeholders and prompts are presentation.
\<close>

definition new_input :: textinput where
  "new_input = Focus (textinput_New\<lparr>CharLimit := 50\<rparr>)"

definition initialModel :: model where
  "initialModel =
     \<lparr>words = ExampleWords, currentIndex = 0, showDetails = False, addingNewCard = False,
      inputs = replicate 4 new_input, focusIndex = 0, loadingExample = False\<rparr>"

subsection \<open>Update\<close>

text \<open>
  The loop \<open>for i := range m.inputs\<close> that focuses input \<open>fi\<close> and blurs the others
  (lines 155-161 and 238-244).
\<close>

definition focus_only :: "int \<Rightarrow> textinput list \<Rightarrow> textinput list" where
  "focus_only fi ts =
     map (\<lambda>(i, t). if int i = fi then Focus t else Blur t) (enumerate 0 ts)"

text \<open>\<open>m.inputs[i].Value()\<close>.\<close>

definition input_Value :: "model \<Rightarrow> int \<Rightarrow> panic + string" where
  "input_Value m i = (case at (inputs m) i of Inl e \<Rightarrow> Inl e | Inr t \<Rightarrow> Inr (Value t))"

text \<open>
  Line 165: \<open>inputs[0].Value() != "" && inputs[1].Value() != "" && inputs[2].Value() != ""\<close>,
  evaluated left to right with short circuit.
\<close>

definition save_guard :: "model \<Rightarrow> panic + bool" where
  "save_guard m =
     (case input_Value m 0 of Inl e \<Rightarrow> Inl e
      | Inr v0 \<Rightarrow> if v0 = [] then Inr False else
     (case input_Value m 1 of Inl e \<Rightarrow> Inl e
      | Inr v1 \<Rightarrow> if v1 = [] then Inr False else
     (case input_Value m 2 of Inl e \<Rightarrow> Inl e
      | Inr v2 \<Rightarrow> Inr (v2 \<noteq> []))))"

text \<open>Lines 166-180: the body of the save branch.\<close>

definition save_card :: "model \<Rightarrow> panic + model" where
  "save_card m =
     (case input_Value m 0 of Inl e \<Rightarrow> Inl e | Inr v0 \<Rightarrow>
     (case input_Value m 1 of Inl e \<Rightarrow> Inl e | Inr v1 \<Rightarrow>
     (case input_Value m 2 of Inl e \<Rightarrow> Inl e | Inr v2 \<Rightarrow>
       (let newWord = \<lparr>Pinyin = v1, Chinese = v0, Definition = v2, Example = []\<rparr>;
            ws = words m @ [newWord]
        in Inr (m\<lparr>words := ws, addingNewCard := False, currentIndex := len ws - 1,
                  inputs := map Reset (inputs m), focusIndex := 0\<rparr>)))))"

text \<open>Lines 141-161: Tab and Shift-Tab move the focus and wrap.\<close>

definition move_focus :: "bool \<Rightarrow> model \<Rightarrow> model" where
  "move_focus forward m =
     (let fi = (if forward then focusIndex m + 1 else focusIndex m - 1);
          fi' = (if fi > len (inputs m) - 1 then 0
                 else if fi < 0 then len (inputs m) - 1 else fi)
      in m\<lparr>focusIndex := fi', inputs := focus_only fi' (inputs m)\<rparr>)"

text \<open>Lines 185-190: every input sees the key; the commands are batched.\<close>

definition route_key :: "key \<Rightarrow> model \<Rightarrow> panic + model \<times> cmd" where
  "route_key k m = Inr (m\<lparr>inputs := map (textinput_Update k) (inputs m)\<rparr>, Batch)"

text \<open>Lines 133-192: a key while \<open>addingNewCard\<close> is set.\<close>

definition update_adding :: "model \<Rightarrow> key \<Rightarrow> panic + model \<times> cmd" where
  "update_adding m k =
     (if k = KeyCtrlC \<or> k = KeyEsc then Inr (m\<lparr>addingNewCard := False\<rparr>, CmdNil)
      else if k = KeyTab \<or> k = KeyShiftTab then route_key k (move_focus (k = KeyTab) m)
      else if k = KeyEnter then
        (case save_guard m of Inl e \<Rightarrow> Inl e
         | Inr True \<Rightarrow> (case save_card m of Inl e \<Rightarrow> Inl e | Inr m' \<Rightarrow> route_key k m')
         | Inr False \<Rightarrow> route_key k m)
      else route_key k m)"

text \<open>Lines 195-206: an \<open>ExampleMsg\<close>, in either mode.\<close>

definition update_example :: "model \<Rightarrow> int \<Rightarrow> string \<Rightarrow> string option \<Rightarrow> panic + model \<times> cmd" where
  "update_example m i ex err =
     (let m1 = m\<lparr>loadingExample := False\<rparr>;
          text = (case err of Some e \<Rightarrow> ''Error: '' @ e | None \<Rightarrow> ex)
      in case at (words m1) i of Inl e \<Rightarrow> Inl e
         | Inr w \<Rightarrow> Inr (m1\<lparr>words := (words m1)[nat i := w\<lparr>Example := text\<rparr>]\<rparr>, CmdNil))"

text \<open>Lines 209-248: a key while browsing.\<close>

definition update_browsing :: "model \<Rightarrow> key \<Rightarrow> panic + model \<times> cmd" where
  "update_browsing m k =
     (let s = key_String k in
      if s = ''ctrl+c'' \<or> s = ''q'' then Inr (m, Quit)
      else if s = ''right'' \<or> s = ''l'' then
        (case go_rem (currentIndex m + 1) (len (words m)) of Inl e \<Rightarrow> Inl e
         | Inr j \<Rightarrow> Inr (m\<lparr>currentIndex := j, showDetails := False, loadingExample := False\<rparr>, CmdNil))
      else if s = ''left'' \<or> s = ''h'' then
        (case go_rem (currentIndex m - 1 + len (words m)) (len (words m)) of Inl e \<Rightarrow> Inl e
         | Inr j \<Rightarrow> Inr (m\<lparr>currentIndex := j, showDetails := False, loadingExample := False\<rparr>, CmdNil))
      else if s = '' '' \<or> s = ''enter'' then
        (let m1 = m\<lparr>showDetails := \<not> showDetails m\<rparr> in
         if showDetails m1 then
           (let m2 = m1\<lparr>loadingExample := True\<rparr> in
            case at (words m2) (currentIndex m2) of Inl e \<Rightarrow> Inl e
            | Inr w \<Rightarrow> Inr (m2, FetchCmd w (currentIndex m2)))
         else Inr (m1\<lparr>loadingExample := False\<rparr>, CmdNil))
      else if s = ''a'' then
        Inr (m\<lparr>addingNewCard := True, focusIndex := 0, inputs := focus_only 0 (inputs m)\<rparr>, CmdNil)
      else Inr (m, CmdNil))"

text \<open>
  main.go, \<open>model.Update\<close>: a key goes to the adding branch when \<open>addingNewCard\<close> is
  set, any other message falls through it; then \<open>ExampleMsg\<close>; then the browsing keys.
\<close>

definition Update :: "model \<Rightarrow> msg \<Rightarrow> panic + model \<times> cmd" where
  "Update m ms =
     (case ms of
        KeyMsg k \<Rightarrow> if addingNewCard m then update_adding m k else update_browsing m k
      | ExampleMsg i ex err \<Rightarrow> update_example m i ex err
      | OtherMsg \<Rightarrow> Inr (m, CmdNil))"

subsection \<open>fetchExample\<close>

text \<open>\<open>log.Fatal\<close> ends the process; \<open>Ret\<close> is a normal return.\<close>

datatype 'a proc = Fatal string | Ret 'a

type_synonym environ = "string \<rightharpoonup> string"

text \<open>\<open>os.Getenv\<close> gives the empty string for a variable that is not set.\<close>

definition Getenv :: "environ \<Rightarrow> string \<Rightarrow> string" where
  "Getenv env name = (case env name of None \<Rightarrow> [] | Some v \<Rightarrow> v)"

text \<open>main.go, \<open>getAPIKey\<close>.\<close>

definition getAPIKey :: "environ \<Rightarrow> string proc" where
  "getAPIKey env =
     (let apiKey = Getenv env ''OPENAI_API_KEY'' in
      if apiKey = [] then Fatal ''OPENAI_API_KEY not set in environment variables''
      else Ret apiKey)"

text \<open>
  What the world answers to the one request of \<open>fetchExample\<close>, in the order the closure
  checks it: an error of \<open>json.Marshal\<close>, of \<open>http.NewRequest\<close>, of \<open>client.Do\<close>, of
  \<open>ioutil.ReadAll\<close> or of \<open>json.Unmarshal\<close> (each with its text), or a parsed body with
  its \<open>error.message\<close> and the \<open>message.content\<close> of its choices.
\<close>

datatype api_outcome =
  MarshalError string
  | NewRequestError string
  | DoError string
  | ReadError string
  | UnmarshalError string
  | Response string "string list"

text \<open>
  main.go, \<open>fetchExample\<close>: the closure run for a \<open>FetchCmd word index\<close>. The key is read
  first, so a missing key ends the process here. \<open>Errorf\<close> is \<open>fmt.Errorf\<close> applied to
  the API's message as its format string.
\<close>

definition fetchExample ::
  "(string \<Rightarrow> string) \<Rightarrow> environ \<Rightarrow> Word \<Rightarrow> int \<Rightarrow> api_outcome \<Rightarrow> msg proc" where
  "fetchExample Errorf env word index out =
     (case getAPIKey env of Fatal t \<Rightarrow> Fatal t
      | Ret apiKey \<Rightarrow> Ret
         (case out of
            MarshalError e \<Rightarrow> ExampleMsg index [] (Some e)
          | NewRequestError e \<Rightarrow> ExampleMsg index [] (Some e)
          | DoError e \<Rightarrow> ExampleMsg index [] (Some e)
          | ReadError e \<Rightarrow> ExampleMsg index [] (Some e)
          | UnmarshalError e \<Rightarrow> ExampleMsg index [] (Some e)
          | Response message choices \<Rightarrow>
              if message \<noteq> [] then ExampleMsg index [] (Some (Errorf message))
              else if choices = [] then ExampleMsg index [] (Some ''No choices returned'')
              else ExampleMsg index (hd choices) None))"

subsection \<open>The program around Update\<close>

text \<open>
  The framework calls \<open>Update\<close> with one message at a time, runs the command it returns
  off the loop and feeds the command's message back. The session state is the model, the
  fetch commands issued and not yet completed, and whether the process still runs.
\<close>

datatype status = Running | Exited | Aborted string

record sys =
  mdl :: model
  outstanding :: "(Word \<times> int) list"
  status :: status

text \<open>
  An event is a key press, a framework message, or the completion of the \<open>n\<close>-th
  outstanding fetch with what the remote side answered.
\<close>

datatype event = Key key | Tick | FetchDone nat api_outcome

definition dispatch :: "sys \<Rightarrow> msg \<Rightarrow> panic + sys" where
  "dispatch s ms =
     (case Update (mdl s) ms of Inl e \<Rightarrow> Inl e
      | Inr (m', c) \<Rightarrow> Inr
         (case c of
            Quit \<Rightarrow> s\<lparr>mdl := m', status := Exited\<rparr>
          | FetchCmd w i \<Rightarrow> s\<lparr>mdl := m', outstanding := outstanding s @ [(w, i)]\<rparr>
          | CmdNil \<Rightarrow> s\<lparr>mdl := m'\<rparr>
          | Batch \<Rightarrow> s\<lparr>mdl := m'\<rparr>))"

definition sys_step :: "(string \<Rightarrow> string) \<Rightarrow> environ \<Rightarrow> sys \<Rightarrow> event \<Rightarrow> panic + sys" where
  "sys_step Errorf env s ev =
     (if status s \<noteq> Running then Inr s
      else case ev of
        Key k \<Rightarrow> dispatch s (KeyMsg k)
      | Tick \<Rightarrow> dispatch s OtherMsg
      | FetchDone n out \<Rightarrow>
          if n < length (outstanding s) then
            (let (w, i) = outstanding s ! n;
                 s1 = s\<lparr>outstanding := take n (outstanding s) @ drop (Suc n) (outstanding s)\<rparr>
             in case fetchExample Errorf env w i out of
                  Fatal t \<Rightarrow> Inr (s1\<lparr>status := Aborted t\<rparr>)
                | Ret ms \<Rightarrow> dispatch s1 ms)
          else Inr s)"

fun sys_run :: "(string \<Rightarrow> string) \<Rightarrow> environ \<Rightarrow> event list \<Rightarrow> sys \<Rightarrow> panic + sys" where
  "sys_run Errorf env [] s = Inr s"
| "sys_run Errorf env (ev # evs) s =
     (case sys_step Errorf env s ev of Inl e \<Rightarrow> Inl e | Inr s' \<Rightarrow> sys_run Errorf env evs s')"

definition sys_init :: sys where
  "sys_init = \<lparr>mdl = initialModel, outstanding = [], status = Running\<rparr>"

text \<open>
  main.go, \<open>initEnv\<close> and \<open>main\<close>. \<open>godotenv.Load\<close> reads the file \<open>.env\<close> (\<open>None\<close> when it
  cannot be loaded) and sets the variables the process environment does not have yet;
  \<open>main\<close> then starts the interactive loop on \<open>initialModel\<close>.
\<close>

record process_env =
  os_env :: environ
  dotenv_file :: "environ option"

definition initEnv :: "process_env \<Rightarrow> environ proc" where
  "initEnv pe =
     (case dotenv_file pe of None \<Rightarrow> Fatal ''Error loading .env file''
      | Some f \<Rightarrow> Ret (f ++ os_env pe))"

definition main_start :: "process_env \<Rightarrow> (environ \<times> sys) proc" where
  "main_start pe =
     (case initEnv pe of Fatal t \<Rightarrow> Fatal t | Ret env \<Rightarrow> Ret (env, sys_init))"

subsection \<open>Invariants and sample states\<close>

text \<open>
  What every state reached from \<open>initialModel\<close> satisfies: the index is inside the deck
  (so the deck is not empty), the form has its four inputs, and \<open>loadingExample\<close> is only
  set while the details are shown.
\<close>

definition ok_model :: "model \<Rightarrow> bool" where
  "ok_model m = (0 \<le> currentIndex m \<and> currentIndex m < len (words m)
     \<and> length (inputs m) = 4 \<and> (loadingExample m \<longrightarrow> showDetails m))"

text \<open>A fetch command carries an index inside the deck.\<close>

definition cmd_ok :: "model \<Rightarrow> cmd \<Rightarrow> bool" where
  "cmd_ok m c = (case c of FetchCmd w i \<Rightarrow> 0 \<le> i \<and> i < len (words m) | _ \<Rightarrow> True)"

definition good :: "sys \<Rightarrow> bool" where
  "good s = (ok_model (mdl s)
     \<and> list_all (\<lambda>(w, i). 0 \<le> i \<and> i < len (words (mdl s))) (outstanding s))"

text \<open>The add-card form with \<open>x\<close>, \<open>y\<close>, \<open>z\<close> and \<open>e\<close> typed into its four fields.\<close>

definition form_filled :: model where
  "form_filled = initialModel
     \<lparr>addingNewCard := True,
      inputs := [new_input\<lparr>tvalue := ''x''\<rparr>, (Blur new_input)\<lparr>tvalue := ''y''\<rparr>,
                 (Blur new_input)\<lparr>tvalue := ''z''\<rparr>, (Blur new_input)\<lparr>tvalue := ''e''\<rparr>]\<rparr>"

text \<open>The add-card form as it is first opened, with nothing typed.\<close>

definition form_blank :: model where
  "form_blank = initialModel\<lparr>addingNewCard := True, inputs := focus_only 0 (inputs initialModel)\<rparr>"

text \<open>A process environment whose \<open>.env\<close> file loads and holds no API key.\<close>

definition env_no_key :: process_env where
  "env_no_key = \<lparr>os_env = Map.empty, dotenv_file = Some [''EDITOR'' \<mapsto> ''vi'']\<rparr>"

text \<open>A process environment that has the API key but no \<open>.env\<close> file to load.\<close>

definition env_no_dotenv :: process_env where
  "env_no_dotenv = \<lparr>os_env = [''OPENAI_API_KEY'' \<mapsto> ''k''], dotenv_file = None\<rparr>"

section \<open>Properties\<close>

subsection \<open>Go primitives and the seed deck\<close>

lemma at_in_range: "0 \<le> i \<Longrightarrow> i < int (length xs) \<Longrightarrow> at xs i = Inr (xs ! nat i)"
  by (simp add: at_def)

lemma go_rem_nonneg: "0 \<le> a \<Longrightarrow> 0 < b \<Longrightarrow> go_rem a b = Inr (a mod b)"
  by (cases "a = 0") (simp_all add: go_rem_def)

lemma length_ExampleWords: "length ExampleWords = 10"
  by (simp add: ExampleWords_def)

lemma inputs_initialModel: "inputs initialModel = [new_input, new_input, new_input, new_input]"
  by (simp add: initialModel_def numeral_eq_Suc)

lemma init_fields:
  "words initialModel = ExampleWords" "currentIndex initialModel = 0"
  "showDetails initialModel = False" "addingNewCard initialModel = False"
  "focusIndex initialModel = 0" "loadingExample initialModel = False"
  by (simp_all add: initialModel_def)

lemmas run_defs = sys_step_def dispatch_def Update_def update_browsing_def update_adding_def
  update_example_def route_key_def move_focus_def focus_only_def save_guard_def save_card_def
  input_Value_def at_def len_def go_rem_def sys_init_def inputs_initialModel new_input_def
  textinput_New_def Focus_def Blur_def Reset_def Value_def insert_runes_def Let_def

subsection \<open>The add-card form\<close>

lemma Update_Enter_inputs: "map (textinput_Update KeyEnter) ts = ts"
  by (induction ts) simp_all

lemma Value_Reset: "map Value (map Reset ts) = replicate (length ts) []"
  by (induction ts) (simp_all add: Value_def Reset_def)

lemma input_Value_in_range:
  "0 \<le> i \<Longrightarrow> i < int (length (inputs m)) \<Longrightarrow> input_Value m i = Inr (Value (inputs m ! nat i))"
  by (simp add: input_Value_def at_def)

lemma length_focus_only: "length (focus_only fi ts) = length ts"
  by (simp add: focus_only_def)

lemma Value_focus_only: "map Value (focus_only fi ts) = map Value ts"
proof -
  have "map (Value \<circ> (\<lambda>(i, t). if int i = fi then Focus t else Blur t)) xs = map (Value \<circ> snd) xs"
    for xs :: "(nat \<times> textinput) list"
    by (induction xs) (auto simp add: Value_def Focus_def Blur_def)
  then show ?thesis
    by (simp add: focus_only_def flip: map_map)
qed

lemma save_guard_total: "length (inputs m) = 4 \<Longrightarrow> \<exists>b. save_guard m = Inr b"
  by (auto simp add: save_guard_def input_Value_in_range)

lemma save_card_total:
  "length (inputs m) = 4 \<Longrightarrow>
     save_card m =
       Inr (m\<lparr>words := words m @ [\<lparr>Pinyin = Value (inputs m ! 1), Chinese = Value (inputs m ! 0),
                                     Definition = Value (inputs m ! 2), Example = []\<rparr>],
              addingNewCard := False, currentIndex := len (words m),
              inputs := map Reset (inputs m), focusIndex := 0\<rparr>)"
  by (simp add: save_card_def input_Value_in_range len_def Let_def)

text \<open>
  The save branch, in full: the new card is built from the first three buffers and its
  example is the empty string, whatever the fourth buffer holds.
\<close>

lemma save_enter:
  assumes "addingNewCard m" and "length (inputs m) = 4"
    and "Value (inputs m ! 0) \<noteq> []" and "Value (inputs m ! 1) \<noteq> []"
    and "Value (inputs m ! 2) \<noteq> []"
  shows "Update m (KeyMsg KeyEnter) =
     Inr (m\<lparr>words := words m @ [\<lparr>Pinyin = Value (inputs m ! 1), Chinese = Value (inputs m ! 0),
                                   Definition = Value (inputs m ! 2), Example = []\<rparr>],
            addingNewCard := False, currentIndex := len (words m),
            inputs := map Reset (inputs m), focusIndex := 0\<rparr>, Batch)"
proof -
  have g: "save_guard m = Inr True"
    using assms by (simp add: save_guard_def input_Value_in_range)
  show ?thesis
    using assms(1)
    by (simp add: Update_def update_adding_def g save_card_total [OF assms(2)] route_key_def
        Update_Enter_inputs)
qed

lemma form_filled_fields:
  "addingNewCard form_filled" "length (inputs form_filled) = 4"
  "Value (inputs form_filled ! 0) = ''x''" "Value (inputs form_filled ! 1) = ''y''"
  "Value (inputs form_filled ! 2) = ''z''" "Value (inputs form_filled ! 3) = ''e''"
  "words form_filled = ExampleWords"
  by (simp_all add: form_filled_def Value_def init_fields)

lemma form_blank_fields:
  "addingNewCard form_blank" "length (inputs form_blank) = 4"
  "Value (inputs form_blank ! 0) = []"
  by (simp_all add: form_blank_def Value_def inputs_initialModel focus_only_def Focus_def
      new_input_def textinput_New_def)

text \<open>
  C4. In Adding mode, Enter with the three required buffers (chinese, pinyin, definition)
  non-empty makes the deck one card longer, sets \<open>currentIndex\<close> to the new last index,
  returns to Browsing, and leaves all four buffers empty with the focus index at 0.
\<close>

theorem save_complete_form:
  assumes "addingNewCard m" and "length (inputs m) = 4"
    and "Value (inputs m ! 0) \<noteq> []" and "Value (inputs m ! 1) \<noteq> []"
    and "Value (inputs m ! 2) \<noteq> []"
  shows "\<exists>m'. Update m (KeyMsg KeyEnter) = Inr (m', Batch)
     \<and> length (words m') = length (words m) + 1
     \<and> currentIndex m' = len (words m') - 1
     \<and> \<not> addingNewCard m'
     \<and> map Value (inputs m') = replicate 4 []
     \<and> focusIndex m' = 0"
proof -
  have "map Value (map Reset (inputs m)) = replicate 4 []"
    using assms(2) by (simp only: Value_Reset)
  then show ?thesis
    using save_enter [OF assms] by (simp add: len_def del: map_map)
qed

text \<open>The filled form satisfies the hypotheses: saving it gives a deck of eleven cards.\<close>

theorem save_complete_form_witness:
  "addingNewCard form_filled \<and> length (inputs form_filled) = 4
   \<and> Value (inputs form_filled ! 0) \<noteq> [] \<and> Value (inputs form_filled ! 1) \<noteq> []
   \<and> Value (inputs form_filled ! 2) \<noteq> []
   \<and> (\<exists>m'. Update form_filled (KeyMsg KeyEnter) = Inr (m', Batch)
        \<and> length (words m') = 11 \<and> currentIndex m' = 10 \<and> \<not> addingNewCard m'
        \<and> map Value (inputs m') = replicate 4 [] \<and> focusIndex m' = 0)"
proof -
  have h: "addingNewCard form_filled" "length (inputs form_filled) = 4"
    "Value (inputs form_filled ! 0) \<noteq> []" "Value (inputs form_filled ! 1) \<noteq> []"
    "Value (inputs form_filled ! 2) \<noteq> []"
    using form_filled_fields by simp_all
  obtain m' where m': "Update form_filled (KeyMsg KeyEnter) = Inr (m', Batch)"
    "length (words m') = length (words form_filled) + 1"
    "currentIndex m' = len (words m') - 1" "\<not> addingNewCard m'"
    "map Value (inputs m') = replicate 4 []" "focusIndex m' = 0"
    using save_complete_form [OF h] by blast
  have "length (words m') = 11" "currentIndex m' = 10"
    using m'(2,3) by (simp_all add: form_filled_fields length_ExampleWords len_def)
  then show ?thesis using h m' by blast
qed

text \<open>
  C9. In Adding mode, Enter while any of the three required buffers is empty is ignored:
  \<open>Update\<close> returns the model as it was (same deck, still Adding) and no error.
\<close>

theorem save_incomplete_ignored:
  assumes "addingNewCard m" and "length (inputs m) = 4"
    and "Value (inputs m ! 0) = [] \<or> Value (inputs m ! 1) = [] \<or> Value (inputs m ! 2) = []"
  shows "Update m (KeyMsg KeyEnter) = Inr (m, Batch)"
proof -
  have g: "save_guard m = Inr False"
    using assms by (auto simp add: save_guard_def input_Value_in_range)
  show ?thesis
    using assms(1) by (simp add: Update_def update_adding_def g route_key_def Update_Enter_inputs)
qed

text \<open>The blank form satisfies the hypotheses: its first buffer is empty.\<close>

theorem save_incomplete_ignored_witness:
  "addingNewCard form_blank \<and> length (inputs form_blank) = 4
   \<and> Value (inputs form_blank ! 0) = []
   \<and> Update form_blank (KeyMsg KeyEnter) = Inr (form_blank, Batch)
   \<and> length (words form_blank) = 10"
proof -
  have h: "addingNewCard form_blank" "length (inputs form_blank) = 4"
    by (simp_all add: form_blank_fields)
  have e: "Value (inputs form_blank ! 0) = []" by (simp add: form_blank_fields)
  then have d: "Value (inputs form_blank ! 0) = [] \<or> Value (inputs form_blank ! 1) = []
      \<or> Value (inputs form_blank ! 2) = []" by simp
  have "length (words form_blank) = 10"
    by (simp add: form_blank_def init_fields length_ExampleWords)
  then show ?thesis using h e save_incomplete_ignored [OF h d] by simp
qed

text \<open>
  C1. The claim: the card appended by a save has the text of form buffer 3 as its example.
  The code builds the card with \<open>Example: ""\<close>. From the initial state the user opens the
  form, types \<open>x\<close>, \<open>y\<close>, \<open>z\<close> and \<open>e\<close> into the four fields and presses Enter: buffer 3
  holds \<open>e\<close> before the save, and the appended card has an empty example.
\<close>

theorem save_drops_example_buffer:
  "map_sum id (map Value \<circ> inputs \<circ> mdl)
     (sys_run id Map.empty
        [Key (KeyRunes ''a''), Key (KeyRunes ''x''), Key KeyTab, Key (KeyRunes ''y''), Key KeyTab,
         Key (KeyRunes ''z''), Key KeyTab, Key (KeyRunes ''e'')] sys_init)
     = Inr [''x'', ''y'', ''z'', ''e'']
   \<and> map_sum id (last \<circ> words \<circ> mdl)
     (sys_run id Map.empty
        [Key (KeyRunes ''a''), Key (KeyRunes ''x''), Key KeyTab, Key (KeyRunes ''y''), Key KeyTab,
         Key (KeyRunes ''z''), Key KeyTab, Key (KeyRunes ''e''), Key KeyEnter] sys_init)
     = Inr \<lparr>Pinyin = ''y'', Chinese = ''x'', Definition = ''z'', Example = []\<rparr>"
  by (simp add: run_defs init_fields length_ExampleWords)

subsection \<open>Form reset\<close>

text \<open>
  C8, as amended. A successful save clears all four buffers and sets the focus index to 0.
  Entering Adding mode sets the focus index to 0, focuses input 0 and blurs the others, and
  leaves the text of the buffers as it is. Cancel (Esc or Ctrl-C) only leaves Adding mode:
  the buffers and the focus index stay as they are.
\<close>

theorem form_reset_only_on_save:
  assumes "\<not> addingNewCard mb" and "addingNewCard mc" and "addingNewCard ms"
    and "length (inputs ms) = 4" and "Value (inputs ms ! 0) \<noteq> []"
    and "Value (inputs ms ! 1) \<noteq> []" and "Value (inputs ms ! 2) \<noteq> []"
  shows "Update mb (KeyMsg (KeyRunes ''a''))
        = Inr (mb\<lparr>addingNewCard := True, focusIndex := 0,
                   inputs := focus_only 0 (inputs mb)\<rparr>, CmdNil)
     \<and> map Value (focus_only 0 (inputs mb)) = map Value (inputs mb)
     \<and> Update mc (KeyMsg KeyEsc) = Inr (mc\<lparr>addingNewCard := False\<rparr>, CmdNil)
     \<and> Update mc (KeyMsg KeyCtrlC) = Inr (mc\<lparr>addingNewCard := False\<rparr>, CmdNil)
     \<and> (\<exists>m'. Update ms (KeyMsg KeyEnter) = Inr (m', Batch)
          \<and> map Value (inputs m') = replicate 4 [] \<and> focusIndex m' = 0)"
proof (intro conjI)
  show "Update mb (KeyMsg (KeyRunes ''a''))
        = Inr (mb\<lparr>addingNewCard := True, focusIndex := 0,
                   inputs := focus_only 0 (inputs mb)\<rparr>, CmdNil)"
    using assms(1) by (simp add: Update_def update_browsing_def)
next
  show "map Value (focus_only 0 (inputs mb)) = map Value (inputs mb)"
    by (rule Value_focus_only)
next
  show "Update mc (KeyMsg KeyEsc) = Inr (mc\<lparr>addingNewCard := False\<rparr>, CmdNil)"
    using assms(2) by (simp add: Update_def update_adding_def)
next
  show "Update mc (KeyMsg KeyCtrlC) = Inr (mc\<lparr>addingNewCard := False\<rparr>, CmdNil)"
    using assms(2) by (simp add: Update_def update_adding_def)
next
  have "map Value (map Reset (inputs ms)) = replicate 4 []"
    using assms(4) by (simp only: Value_Reset)
  then show "\<exists>m'. Update ms (KeyMsg KeyEnter) = Inr (m', Batch)
          \<and> map Value (inputs m') = replicate 4 [] \<and> focusIndex m' = 0"
    using save_enter [OF assms(3,4,5,6,7)] by (simp del: map_map)
qed

text \<open>
  The initial model is browsing, and the filled form is in Adding mode with its required
  buffers set: cancelling the filled form keeps its four texts.
\<close>

theorem form_reset_only_on_save_witness:
  "\<not> addingNewCard initialModel \<and> addingNewCard form_filled
   \<and> length (inputs form_filled) = 4 \<and> Value (inputs form_filled ! 0) \<noteq> []
   \<and> Value (inputs form_filled ! 1) \<noteq> [] \<and> Value (inputs form_filled ! 2) \<noteq> []
   \<and> Update form_filled (KeyMsg KeyEsc) = Inr (form_filled\<lparr>addingNewCard := False\<rparr>, CmdNil)
   \<and> map Value (inputs (form_filled\<lparr>addingNewCard := False\<rparr>)) = [''x'', ''y'', ''z'', ''e'']
   \<and> (\<exists>m'. Update form_filled (KeyMsg KeyEnter) = Inr (m', Batch)
          \<and> map Value (inputs m') = replicate 4 [] \<and> focusIndex m' = 0)"
proof -
  have b: "\<not> addingNewCard initialModel" by (simp add: init_fields)
  have h: "addingNewCard form_filled" "addingNewCard form_filled" "length (inputs form_filled) = 4"
    "Value (inputs form_filled ! 0) \<noteq> []" "Value (inputs form_filled ! 1) \<noteq> []"
    "Value (inputs form_filled ! 2) \<noteq> []"
    using form_filled_fields by simp_all
  have v: "map Value (inputs (form_filled\<lparr>addingNewCard := False\<rparr>)) = [''x'', ''y'', ''z'', ''e'']"
    by (simp add: form_filled_def Value_def)
  show ?thesis
    using b h v form_reset_only_on_save [OF b h] by blast
qed

text \<open>
  The claim as stated fails on cancel and on entering Adding mode. From the initial state:
  open the form, type \<open>x\<close>, press Tab, cancel. Buffer 0 still holds \<open>x\<close> and the focus index
  is 1; opening the form again shows \<open>x\<close> in buffer 0.
\<close>

theorem cancel_keeps_buffers:
  "map_sum id (map Value \<circ> inputs \<circ> mdl)
     (sys_run id Map.empty
        [Key (KeyRunes ''a''), Key (KeyRunes ''x''), Key KeyTab, Key KeyEsc] sys_init)
     = Inr [''x'', [], [], []]
   \<and> map_sum id (focusIndex \<circ> mdl)
     (sys_run id Map.empty
        [Key (KeyRunes ''a''), Key (KeyRunes ''x''), Key KeyTab, Key KeyEsc] sys_init)
     = Inr 1
   \<and> map_sum id (map Value \<circ> inputs \<circ> mdl)
     (sys_run id Map.empty
        [Key (KeyRunes ''a''), Key (KeyRunes ''x''), Key KeyTab, Key KeyEsc,
         Key (KeyRunes ''a'')] sys_init)
     = Inr [''x'', [], [], []]"
  by (simp add: run_defs init_fields length_ExampleWords)

subsection \<open>Merging a fetch result\<close>

text \<open>
  C2. An \<open>ExampleMsg\<close> for a card of the deck, in either mode and whatever the current
  index is: \<open>loadingExample\<close> becomes false, and the card at the message's index gets as
  its example \<open>"Error: "\<close> followed by the error text when the message carries an error,
  and the message's example text otherwise. Nothing else of the model changes: the deck
  is updated at that one index, in that one field.
\<close>

theorem ExampleMsg_merge:
  assumes "0 \<le> i" and "i < len (words m)"
  shows "Update m (ExampleMsg i ex err) =
     Inr (m\<lparr>loadingExample := False,
            words := (words m)[nat i := (words m ! nat i)
               \<lparr>Example := (case err of Some e \<Rightarrow> ''Error: '' @ e | None \<Rightarrow> ex)\<rparr>]\<rparr>, CmdNil)"
  using assms by (simp add: Update_def update_example_def at_def len_def)

text \<open>
  A result with the error \<open>timeout\<close> for card 2 arrives while the filled form is open and
  the current index is 0: card 2 gets \<open>Error: timeout\<close>.
\<close>

theorem ExampleMsg_merge_witness:
  "(0::int) \<le> 2 \<and> 2 < len (words form_filled) \<and> currentIndex form_filled = 0
   \<and> Update form_filled (ExampleMsg 2 [] (Some ''timeout'')) =
     Inr (form_filled\<lparr>loadingExample := False,
            words := ExampleWords[2 := (ExampleWords ! 2)\<lparr>Example := ''Error: timeout''\<rparr>]\<rparr>, CmdNil)"
proof -
  have h: "(0::int) \<le> 2" "2 < len (words form_filled)"
    by (simp_all add: form_filled_fields len_def length_ExampleWords)
  have c: "currentIndex form_filled = 0" by (simp add: form_filled_def init_fields)
  show ?thesis
    using h c ExampleMsg_merge [OF h, of "[]" "Some ''timeout''"]
    by (simp add: form_filled_fields)
qed

subsection \<open>Toggling the details\<close>

text \<open>
  C10. In Browsing mode, the toggle-details key (space or Enter) pressed while the details
  are hidden shows them, sets \<open>loadingExample\<close> and issues a fetch for the current card.
  The card's example field is not consulted: a card that already has an example is fetched
  again.
\<close>

theorem toggle_always_fetches:
  assumes "\<not> addingNewCard m" and "\<not> showDetails m"
    and "0 \<le> currentIndex m" and "currentIndex m < len (words m)"
    and "key_String k = '' '' \<or> key_String k = ''enter''"
  shows "Update m (KeyMsg k) =
     Inr (m\<lparr>showDetails := True, loadingExample := True\<rparr>,
          FetchCmd (words m ! nat (currentIndex m)) (currentIndex m))"
  using assms by (auto simp add: Update_def update_browsing_def at_def len_def Let_def)

text \<open>Seed card 2 has an example already; the space bar on it issues a fetch all the same.\<close>

theorem toggle_always_fetches_witness:
  "\<not> addingNewCard (initialModel\<lparr>currentIndex := 2\<rparr>)
   \<and> \<not> showDetails (initialModel\<lparr>currentIndex := 2\<rparr>)
   \<and> Example (ExampleWords ! 2) \<noteq> []
   \<and> Update (initialModel\<lparr>currentIndex := 2\<rparr>) (KeyMsg (KeyRunes '' '')) =
     Inr (initialModel\<lparr>currentIndex := 2, showDetails := True, loadingExample := True\<rparr>,
          FetchCmd (ExampleWords ! 2) 2)"
proof -
  let ?m = "initialModel\<lparr>currentIndex := 2\<rparr>"
  have h: "\<not> addingNewCard ?m" "\<not> showDetails ?m" "0 \<le> currentIndex ?m"
    "currentIndex ?m < len (words ?m)"
    "key_String (KeyRunes '' '') = '' '' \<or> key_String (KeyRunes '' '') = ''enter''"
    by (simp_all add: init_fields len_def length_ExampleWords)
  have e: "Example (ExampleWords ! 2) \<noteq> []" by (simp add: ExampleWords_def)
  show ?thesis
    using h(1,2) e toggle_always_fetches [OF h] by (simp add: init_fields)
qed

subsection \<open>The invariant of the session\<close>

lemma update_adding_ok:
  assumes "ok_model m"
  shows "\<exists>m' c. update_adding m k = Inr (m', c) \<and> ok_model m' \<and> cmd_ok m' c
     \<and> length (words m) \<le> length (words m')"
proof -
  have l: "length (inputs m) = 4" using assms by (simp add: ok_model_def)
  obtain b where g: "save_guard m = Inr b" using save_guard_total [OF l] by blast
  show ?thesis
    using assms
    by (cases b)
       (simp_all add: update_adding_def g save_card_total [OF l] route_key_def move_focus_def
          ok_model_def cmd_ok_def length_focus_only len_def Let_def)
qed

lemma update_browsing_ok:
  assumes "ok_model m"
  shows "\<exists>m' c. update_browsing m k = Inr (m', c) \<and> ok_model m' \<and> cmd_ok m' c
     \<and> length (words m) \<le> length (words m')"
proof -
  have b: "0 \<le> currentIndex m" "currentIndex m < int (length (words m))"
    using assms by (simp_all add: ok_model_def len_def)
  have l: "0 < len (words m)" using b by (auto simp add: len_def)
  have n: "go_rem (currentIndex m + 1) (len (words m)) = Inr ((currentIndex m + 1) mod len (words m))"
    by (rule go_rem_nonneg) (use b l in simp_all)
  have p: "go_rem (currentIndex m - 1 + len (words m)) (len (words m))
      = Inr ((currentIndex m - 1 + len (words m)) mod len (words m))"
    by (rule go_rem_nonneg) (use b l in \<open>simp_all add: len_def\<close>)
  have a: "at (words m) (currentIndex m) = Inr (words m ! nat (currentIndex m))"
    using b by (simp add: at_in_range)
  show ?thesis
    using assms l
    by (auto simp add: update_browsing_def n p a ok_model_def cmd_ok_def
        length_focus_only Let_def)
qed

lemma update_example_ok:
  assumes "ok_model m" and "0 \<le> i" and "i < len (words m)"
  shows "\<exists>m'. update_example m i ex err = Inr (m', CmdNil) \<and> ok_model m'
     \<and> length (words m) = length (words m')"
  using assms by (simp add: update_example_def at_def ok_model_def len_def Let_def)

text \<open>
  \<open>Update\<close> does not panic on a model that satisfies the invariant and keeps it; an
  \<open>ExampleMsg\<close> must name a card of the deck.
\<close>

lemma Update_ok:
  assumes "ok_model m"
    and "case ms of ExampleMsg i ex err \<Rightarrow> 0 \<le> i \<and> i < len (words m) | _ \<Rightarrow> True"
  shows "\<exists>m' c. Update m ms = Inr (m', c) \<and> ok_model m' \<and> cmd_ok m' c
     \<and> length (words m) \<le> length (words m')"
proof (cases ms)
  case (KeyMsg k)
  then show ?thesis
    using update_adding_ok [OF assms(1), of k] update_browsing_ok [OF assms(1), of k]
    by (simp add: Update_def)
next
  case (ExampleMsg i ex err)
  then show ?thesis
    using update_example_ok [OF assms(1), of i ex err] assms(2)
    by (auto simp add: Update_def cmd_ok_def)
next
  case OtherMsg
  then show ?thesis using assms(1) by (simp add: Update_def cmd_ok_def)
qed

lemma outstanding_mono:
  "list_all (\<lambda>(w, i). 0 \<le> i \<and> i < int n) xs \<Longrightarrow> n \<le> n' \<Longrightarrow>
   list_all (\<lambda>(w, i). 0 \<le> i \<and> i < int n') xs"
  by (induction xs) auto

lemma dispatch_good:
  assumes "ok_model (mdl s)"
    and "list_all (\<lambda>(w, i). 0 \<le> i \<and> i < len (words (mdl s))) (outstanding s)"
    and "case ms of ExampleMsg i ex err \<Rightarrow> 0 \<le> i \<and> i < len (words (mdl s)) | _ \<Rightarrow> True"
  shows "\<exists>s'. dispatch s ms = Inr s' \<and> good s'"
proof -
  obtain m' c where u: "Update (mdl s) ms = Inr (m', c)" and ok: "ok_model m'"
    and c: "cmd_ok m' c" and le: "length (words (mdl s)) \<le> length (words m')"
    using Update_ok [OF assms(1) assms(3)] by blast
  have o: "list_all (\<lambda>(w, i). 0 \<le> i \<and> i < len (words m')) (outstanding s)"
    using outstanding_mono [OF _ le] assms(2) by (simp add: len_def)
  show ?thesis
    using ok c o by (cases c) (simp_all add: dispatch_def u good_def cmd_ok_def)
qed

lemma sys_step_good:
  assumes "good s"
  shows "\<exists>s'. sys_step Errorf env s ev = Inr s' \<and> good s'"
proof (cases "status s = Running")
  case False
  then show ?thesis using assms by (simp add: sys_step_def)
next
  case True
  have ok: "ok_model (mdl s)"
    and o: "list_all (\<lambda>(w, i). 0 \<le> i \<and> i < len (words (mdl s))) (outstanding s)"
    using assms by (simp_all add: good_def)
  show ?thesis
  proof (cases ev)
    case (Key k)
    then show ?thesis
      using True dispatch_good [OF ok o, of "KeyMsg k"] by (simp add: sys_step_def)
  next
    case Tick
    then show ?thesis
      using True dispatch_good [OF ok o, of OtherMsg] by (simp add: sys_step_def)
  next
    case (FetchDone n out)
    show ?thesis
    proof (cases "n < length (outstanding s)")
      case False
      then show ?thesis using True FetchDone assms by (simp add: sys_step_def)
    next
      case n: True
      obtain w i where wi: "outstanding s ! n = (w, i)" by (cases "outstanding s ! n")
      define s1 where
        "s1 = s\<lparr>outstanding := take n (outstanding s) @ drop (Suc n) (outstanding s)\<rparr>"
      have i: "0 \<le> i \<and> i < len (words (mdl s))"
        using o n wi by (auto simp add: list_all_length)
      have o1: "list_all (\<lambda>(w, i). 0 \<le> i \<and> i < len (words (mdl s1))) (outstanding s1)"
        using o by (auto simp add: s1_def list_all_iff dest: in_set_takeD in_set_dropD)
      have ok1: "ok_model (mdl s1)" using ok by (simp add: s1_def)
      show ?thesis
      proof (cases "fetchExample Errorf env w i out")
        case (Fatal t)
        then show ?thesis
          using True FetchDone n wi ok1 o1 by (simp add: sys_step_def s1_def good_def)
      next
        case (Ret ms)
        have "case ms of ExampleMsg j ex err \<Rightarrow> 0 \<le> j \<and> j < len (words (mdl s1)) | _ \<Rightarrow> True"
          using Ret i
          by (auto simp add: fetchExample_def s1_def
              split: proc.splits api_outcome.splits if_splits)
        from dispatch_good [OF ok1 o1 this] show ?thesis
          using True FetchDone n wi Ret by (simp add: sys_step_def s1_def)
      qed
    qed
  qed
qed

lemma sys_run_good:
  "good s \<Longrightarrow> \<exists>s'. sys_run Errorf env evs s = Inr s' \<and> good s'"
proof (induction evs arbitrary: s)
  case Nil
  then show ?case by simp
next
  case (Cons ev evs)
  obtain s1 where "sys_step Errorf env s ev = Inr s1" and "good s1"
    using sys_step_good [OF Cons.prems] by blast
  then show ?case using Cons.IH [of s1] by simp
qed

lemma good_init: "good sys_init"
  by (simp add: good_def ok_model_def sys_init_def initialModel_def len_def length_ExampleWords)

text \<open>
  C5. From the initial state, whatever the key presses, framework messages and fetch
  completions, in whatever order: no step panics (no index out of range, no division by
  zero), and the state reached has a non-empty deck and \<open>0 \<le> currentIndex < len(words)\<close>.
\<close>

theorem deck_index_invariant:
  "\<exists>s. sys_run Errorf env evs sys_init = Inr s
     \<and> words (mdl s) \<noteq> []
     \<and> 0 \<le> currentIndex (mdl s) \<and> currentIndex (mdl s) < len (words (mdl s))"
  using sys_run_good [OF good_init, of Errorf env evs]
  by (auto simp add: good_def ok_model_def len_def)

text \<open>
  One session: previous from card 0 wraps to card 9, a fetch is issued there, a card is
  added, and the fetch completes for card 9 while card 10 is current.
\<close>

theorem deck_index_invariant_witness:
  "\<exists>s. sys_run id [''OPENAI_API_KEY'' \<mapsto> ''k'']
          [Key KeyLeft, Key KeyEnter, Key (KeyRunes ''a''), Key (KeyRunes ''x''), Key KeyTab,
           Key (KeyRunes ''y''), Key KeyTab, Key (KeyRunes ''z''), Key KeyEnter,
           FetchDone 0 (Response [] [''s''])] sys_init = Inr s
     \<and> words (mdl s) \<noteq> []
     \<and> 0 \<le> currentIndex (mdl s) \<and> currentIndex (mdl s) < len (words (mdl s))"
  by (rule deck_index_invariant)

subsection \<open>Outstanding fetches\<close>

lemma update_adding_cmd: "update_adding m k = Inr (m', c) \<Longrightarrow> c = CmdNil \<or> c = Batch"
  by (auto simp add: update_adding_def route_key_def split: if_splits sum.splits bool.splits)

text \<open>While the details are shown, no message makes \<open>Update\<close> issue a fetch.\<close>

lemma no_fetch_when_shown:
  assumes "showDetails m" and "Update m ms = Inr (m', c)"
  shows "c \<noteq> FetchCmd w i"
proof (cases ms)
  case (KeyMsg k)
  show ?thesis
  proof (cases "addingNewCard m")
    case True
    then show ?thesis
      using assms(2) KeyMsg update_adding_cmd [of m k m' c] by (auto simp add: Update_def)
  next
    case False
    then show ?thesis
      using assms KeyMsg
      by (auto simp add: Update_def update_browsing_def Let_def split: if_splits sum.splits)
  qed
next
  case (ExampleMsg j ex err)
  then show ?thesis
    using assms(2) by (auto simp add: Update_def update_example_def Let_def split: sum.splits)
next
  case OtherMsg
  then show ?thesis using assms(2) by (auto simp add: Update_def)
qed

text \<open>
  C3, as amended. In every state reached from the initial state, \<open>Update\<close> issues no fetch
  while \<open>loadingExample\<close> is true: the flag is only set while the details are shown, and
  the toggle key then hides them. The flag is not the set of outstanding fetches, though:
  next, previous and toggle-off clear it and cancel nothing, so a later toggle issues a
  second fetch while the first is still outstanding.
\<close>

theorem no_fetch_while_loading:
  assumes "sys_run Errorf env evs sys_init = Inr s" and "loadingExample (mdl s)"
    and "Update (mdl s) ms = Inr (m', c)"
  shows "\<forall>w i. c \<noteq> FetchCmd w i"
proof -
  have "good s"
    using sys_run_good [OF good_init, of Errorf env evs] assms(1) by simp
  then have "showDetails (mdl s)"
    using assms(2) by (simp add: good_def ok_model_def)
  then show ?thesis
    using no_fetch_when_shown [OF _ assms(3)] by blast
qed

text \<open>
  After one toggle the session is loading; the next toggle hides the details and issues
  nothing.
\<close>

theorem no_fetch_while_loading_witness:
  "sys_run id Map.empty [Key KeyEnter] sys_init
     = Inr (sys_init\<lparr>mdl := initialModel\<lparr>showDetails := True, loadingExample := True\<rparr>,
                      outstanding := [(ExampleWords ! 0, 0)]\<rparr>)
   \<and> loadingExample (initialModel\<lparr>showDetails := True, loadingExample := True\<rparr>)
   \<and> Update (initialModel\<lparr>showDetails := True, loadingExample := True\<rparr>) (KeyMsg KeyEnter)
       = Inr (initialModel\<lparr>showDetails := False, loadingExample := False\<rparr>, CmdNil)
   \<and> (\<forall>w i. CmdNil \<noteq> FetchCmd w i)"
proof -
  let ?s = "sys_init\<lparr>mdl := initialModel\<lparr>showDetails := True, loadingExample := True\<rparr>,
                      outstanding := [(ExampleWords ! 0, 0)]\<rparr>"
  have r: "sys_run id Map.empty [Key KeyEnter] sys_init = Inr ?s"
    by (simp add: run_defs init_fields length_ExampleWords)
  have l: "loadingExample (mdl ?s)" by simp
  have u: "Update (mdl ?s) (KeyMsg KeyEnter)
       = Inr (initialModel\<lparr>showDetails := False, loadingExample := False\<rparr>, CmdNil)"
    by (simp add: run_defs init_fields)
  show ?thesis
    using no_fetch_while_loading [OF r l u] r u by simp
qed

text \<open>
  The claim as stated fails: three presses of the toggle key from the initial state, with
  no fetch completing in between, leave two fetches outstanding.
\<close>

theorem two_fetches_outstanding:
  "map_sum id (length \<circ> outstanding)
     (sys_run id Map.empty [Key KeyEnter, Key KeyEnter, Key KeyEnter] sys_init) = Inr 2"
  by (simp add: run_defs init_fields length_ExampleWords)

subsection \<open>Navigation\<close>

lemma next_key:
  assumes "\<not> addingNewCard m" and "0 \<le> currentIndex m" and "currentIndex m < len (words m)"
    and "key_String k = ''right'' \<or> key_String k = ''l''"
  shows "Update m (KeyMsg k) =
     Inr (m\<lparr>currentIndex := (currentIndex m + 1) mod len (words m),
            showDetails := False, loadingExample := False\<rparr>, CmdNil)"
proof -
  have "go_rem (currentIndex m + 1) (len (words m)) = Inr ((currentIndex m + 1) mod len (words m))"
    by (rule go_rem_nonneg) (use assms in simp_all)
  then show ?thesis
    using assms(1,4) by (auto simp add: Update_def update_browsing_def)
qed

lemma prev_key:
  assumes "\<not> addingNewCard m" and "0 \<le> currentIndex m" and "currentIndex m < len (words m)"
    and "key_String k = ''left'' \<or> key_String k = ''h''"
  shows "Update m (KeyMsg k) =
     Inr (m\<lparr>currentIndex := (currentIndex m - 1 + len (words m)) mod len (words m),
            showDetails := False, loadingExample := False\<rparr>, CmdNil)"
proof -
  have "go_rem (currentIndex m - 1 + len (words m)) (len (words m))
      = Inr ((currentIndex m - 1 + len (words m)) mod len (words m))"
    by (rule go_rem_nonneg) (use assms in simp_all)
  then show ?thesis
    using assms(1,4) by (auto simp add: Update_def update_browsing_def)
qed

text \<open>\<open>n\<close> presses of next move the index by \<open>n\<close> modulo the size of the deck.\<close>

lemma run_next:
  assumes "key_String k = ''right'' \<or> key_String k = ''l''"
  shows "status s = Running \<Longrightarrow> \<not> addingNewCard (mdl s) \<Longrightarrow> 0 \<le> currentIndex (mdl s) \<Longrightarrow>
     currentIndex (mdl s) < len (words (mdl s)) \<Longrightarrow>
     \<exists>s'. sys_run Errorf env (replicate n (Key k)) s = Inr s'
        \<and> words (mdl s') = words (mdl s)
        \<and> currentIndex (mdl s') = (currentIndex (mdl s) + int n) mod len (words (mdl s))"
proof (induction n arbitrary: s)
  case 0
  then show ?case by simp
next
  case (Suc n)
  define m1 where
    "m1 = (mdl s)\<lparr>currentIndex := (currentIndex (mdl s) + 1) mod len (words (mdl s)),
            showDetails := False, loadingExample := False\<rparr>"
  have st: "sys_step Errorf env s (Key k) = Inr (s\<lparr>mdl := m1\<rparr>)"
    using Suc.prems next_key [OF Suc.prems(2,3,4) assms]
    by (simp add: sys_step_def dispatch_def m1_def)
  have L: "0 < len (words (mdl s))" using Suc.prems by simp
  have b: "0 \<le> currentIndex (mdl (s\<lparr>mdl := m1\<rparr>))"
    "currentIndex (mdl (s\<lparr>mdl := m1\<rparr>)) < len (words (mdl (s\<lparr>mdl := m1\<rparr>)))"
    using L by (simp_all add: m1_def)
  have r: "status (s\<lparr>mdl := m1\<rparr>) = Running" "\<not> addingNewCard (mdl (s\<lparr>mdl := m1\<rparr>))"
    using Suc.prems by (simp_all add: m1_def)
  obtain s' where s': "sys_run Errorf env (replicate n (Key k)) (s\<lparr>mdl := m1\<rparr>) = Inr s'"
    "words (mdl s') = words (mdl (s\<lparr>mdl := m1\<rparr>))"
    "currentIndex (mdl s') = (currentIndex (mdl (s\<lparr>mdl := m1\<rparr>)) + int n)
        mod len (words (mdl (s\<lparr>mdl := m1\<rparr>)))"
    using Suc.IH [OF r b] by blast
  have "currentIndex (mdl s') = (currentIndex (mdl s) + int (Suc n)) mod len (words (mdl s))"
    using s'(3) by (simp add: m1_def mod_add_left_eq add.assoc)
  then show ?case using st s'(1,2) by (simp add: m1_def)
qed

text \<open>
  C6. While browsing a deck with the index in bounds (so the deck is not empty): pressing
  next as many times as the deck has cards brings \<open>currentIndex\<close> back to where it was;
  previous after next, and next after previous, restore it. Next is \<open>right\<close> or \<open>l\<close>,
  previous is \<open>left\<close> or \<open>h\<close>.
\<close>

theorem navigation_cyclic:
  assumes "status s = Running" and "\<not> addingNewCard (mdl s)"
    and "0 \<le> currentIndex (mdl s)" and "currentIndex (mdl s) < len (words (mdl s))"
    and "key_String kn = ''right'' \<or> key_String kn = ''l''"
    and "key_String kp = ''left'' \<or> key_String kp = ''h''"
  shows "(\<exists>s'. sys_run Errorf env (replicate (length (words (mdl s))) (Key kn)) s = Inr s'
            \<and> currentIndex (mdl s') = currentIndex (mdl s))
       \<and> (\<exists>s'. sys_run Errorf env [Key kn, Key kp] s = Inr s'
            \<and> currentIndex (mdl s') = currentIndex (mdl s))
       \<and> (\<exists>s'. sys_run Errorf env [Key kp, Key kn] s = Inr s'
            \<and> currentIndex (mdl s') = currentIndex (mdl s))"
proof (intro conjI)
  show "\<exists>s'. sys_run Errorf env (replicate (length (words (mdl s))) (Key kn)) s = Inr s'
            \<and> currentIndex (mdl s') = currentIndex (mdl s)"
    using run_next [OF assms(5) assms(1,2,3,4), of Errorf env "length (words (mdl s))"] assms(3,4)
    by (auto simp add: len_def)
next
  let ?L = "len (words (mdl s))"
  let ?m1 = "(mdl s)\<lparr>currentIndex := (currentIndex (mdl s) + 1) mod ?L,
            showDetails := False, loadingExample := False\<rparr>"
  have L: "0 < ?L" using assms(3,4) by simp
  have u1: "Update (mdl s) (KeyMsg kn) = Inr (?m1, CmdNil)"
    by (rule next_key [OF assms(2,3,4,5)])
  have u2: "Update ?m1 (KeyMsg kp) =
      Inr (?m1\<lparr>currentIndex := (currentIndex ?m1 - 1 + len (words ?m1)) mod len (words ?m1),
            showDetails := False, loadingExample := False\<rparr>, CmdNil)"
    by (rule prev_key) (use assms(2,6) L in simp_all)
  have e: "((currentIndex (mdl s) + 1) mod ?L - 1 + ?L) mod ?L = currentIndex (mdl s)"
  proof -
    have "((currentIndex (mdl s) + 1) mod ?L - 1 + ?L) mod ?L
        = ((currentIndex (mdl s) + 1) mod ?L + (?L - 1)) mod ?L"
      by (simp add: algebra_simps)
    also have "\<dots> = (currentIndex (mdl s) + 1 + (?L - 1)) mod ?L"
      by (simp only: mod_add_left_eq)
    also have "\<dots> = currentIndex (mdl s)" using assms(3,4) by simp
    finally show ?thesis .
  qed
  show "\<exists>s'. sys_run Errorf env [Key kn, Key kp] s = Inr s'
            \<and> currentIndex (mdl s') = currentIndex (mdl s)"
    using assms(1) u1 u2 e by (simp add: sys_step_def dispatch_def)
next
  let ?L = "len (words (mdl s))"
  let ?m1 = "(mdl s)\<lparr>currentIndex := (currentIndex (mdl s) - 1 + ?L) mod ?L,
            showDetails := False, loadingExample := False\<rparr>"
  have L: "0 < ?L" using assms(3,4) by simp
  have u1: "Update (mdl s) (KeyMsg kp) = Inr (?m1, CmdNil)"
    by (rule prev_key [OF assms(2,3,4,6)])
  have u2: "Update ?m1 (KeyMsg kn) =
      Inr (?m1\<lparr>currentIndex := (currentIndex ?m1 + 1) mod len (words ?m1),
            showDetails := False, loadingExample := False\<rparr>, CmdNil)"
    by (rule next_key) (use assms(2,5) L in simp_all)
  have e: "((currentIndex (mdl s) - 1 + ?L) mod ?L + 1) mod ?L = currentIndex (mdl s)"
  proof -
    have "((currentIndex (mdl s) - 1 + ?L) mod ?L + 1) mod ?L
        = (currentIndex (mdl s) - 1 + ?L + 1) mod ?L"
      by (simp only: mod_add_left_eq)
    also have "\<dots> = currentIndex (mdl s)" using assms(3,4) by simp
    finally show ?thesis .
  qed
  show "\<exists>s'. sys_run Errorf env [Key kp, Key kn] s = Inr s'
            \<and> currentIndex (mdl s') = currentIndex (mdl s)"
    using assms(1) u1 u2 e by (simp add: sys_step_def dispatch_def)
qed

text \<open>The initial session, with the arrow keys: ten presses of \<open>right\<close> return to card 0.\<close>

theorem navigation_cyclic_witness:
  "status sys_init = Running \<and> \<not> addingNewCard (mdl sys_init)
   \<and> 0 \<le> currentIndex (mdl sys_init) \<and> currentIndex (mdl sys_init) < len (words (mdl sys_init))
   \<and> length (words (mdl sys_init)) = 10
   \<and> (\<exists>s'. sys_run id Map.empty (replicate (length (words (mdl sys_init))) (Key KeyRight)) sys_init
              = Inr s' \<and> currentIndex (mdl s') = currentIndex (mdl sys_init))
   \<and> (\<exists>s'. sys_run id Map.empty [Key KeyRight, Key KeyLeft] sys_init = Inr s'
            \<and> currentIndex (mdl s') = currentIndex (mdl sys_init))
   \<and> (\<exists>s'. sys_run id Map.empty [Key KeyLeft, Key KeyRight] sys_init = Inr s'
            \<and> currentIndex (mdl s') = currentIndex (mdl sys_init))"
proof -
  have h: "status sys_init = Running" "\<not> addingNewCard (mdl sys_init)"
    "0 \<le> currentIndex (mdl sys_init)" "currentIndex (mdl sys_init) < len (words (mdl sys_init))"
    "key_String KeyRight = ''right'' \<or> key_String KeyRight = ''l''"
    "key_String KeyLeft = ''left'' \<or> key_String KeyLeft = ''h''"
    by (simp_all add: sys_init_def init_fields len_def length_ExampleWords)
  have n: "length (words (mdl sys_init)) = 10"
    by (simp add: sys_init_def init_fields length_ExampleWords)
  show ?thesis
    using h(1,2,3,4) n navigation_cyclic [OF h, of id Map.empty] by blast
qed

subsection \<open>The API credential\<close>

text \<open>
  C7, as amended. A missing API credential is fatal, but not at startup. What \<open>main\<close>
  checks before the interactive loop is the \<open>.env\<close> file: when it loads, \<open>main\<close> enters
  the loop on the initial state whether or not the key is set; when it does not load,
  \<open>main\<close> aborts before the loop. With the key missing, the closure of \<open>fetchExample\<close>
  ends in \<open>log.Fatal\<close> whatever the remote side would have answered, so the running
  process aborts when a fetch command runs, and a missing credential is never turned into
  an \<open>ExampleMsg\<close> error.
\<close>

theorem missing_key_fatal_at_fetch:
  assumes "dotenv_file pe = Some f" and "dotenv_file pn = None"
    and "Getenv env ''OPENAI_API_KEY'' = []"
    and "status s = Running" and "n < length (outstanding s)"
  shows "main_start pe = Ret (f ++ os_env pe, sys_init)
     \<and> main_start pn = Fatal ''Error loading .env file''
     \<and> (\<forall>w i out. fetchExample Errorf env w i out
            = Fatal ''OPENAI_API_KEY not set in environment variables'')
     \<and> sys_step Errorf env s (FetchDone n out)
          = Inr (s\<lparr>outstanding := take n (outstanding s) @ drop (Suc n) (outstanding s),
                   status := Aborted ''OPENAI_API_KEY not set in environment variables''\<rparr>)"
proof -
  have f: "fetchExample Errorf env w i out
      = Fatal ''OPENAI_API_KEY not set in environment variables''" for w i out
    using assms(3) by (simp add: fetchExample_def getAPIKey_def)
  have st: "sys_step Errorf env s (FetchDone n out)
          = Inr (s\<lparr>outstanding := take n (outstanding s) @ drop (Suc n) (outstanding s),
                   status := Aborted ''OPENAI_API_KEY not set in environment variables''\<rparr>)"
    using assms(4,5) by (cases "outstanding s ! n") (simp add: sys_step_def f)
  have a: "main_start pe = Ret (f ++ os_env pe, sys_init)"
    using assms(1) by (simp add: main_start_def initEnv_def)
  have b: "main_start pn = Fatal ''Error loading .env file''"
    using assms(2) by (simp add: main_start_def initEnv_def)
  show ?thesis using a b f st by blast
qed

text \<open>
  An environment whose \<open>.env\<close> file sets another variable only: the loop starts, and the
  fetch issued by the first toggle aborts the process. An environment that has the key
  and no \<open>.env\<close> file aborts at startup.
\<close>

theorem missing_key_fatal_at_fetch_witness:
  "dotenv_file env_no_key = Some [''EDITOR'' \<mapsto> ''vi''] \<and> dotenv_file env_no_dotenv = None
   \<and> Getenv ([''EDITOR'' \<mapsto> ''vi''] ++ os_env env_no_key) ''OPENAI_API_KEY'' = []
   \<and> sys_run id ([''EDITOR'' \<mapsto> ''vi''] ++ os_env env_no_key) [Key KeyEnter] sys_init
       = Inr (sys_init\<lparr>mdl := initialModel\<lparr>showDetails := True, loadingExample := True\<rparr>,
                        outstanding := [(ExampleWords ! 0, 0)]\<rparr>)
   \<and> main_start env_no_key = Ret ([''EDITOR'' \<mapsto> ''vi''] ++ os_env env_no_key, sys_init)
   \<and> main_start env_no_dotenv = Fatal ''Error loading .env file''
   \<and> (\<forall>w i out. fetchExample id ([''EDITOR'' \<mapsto> ''vi''] ++ os_env env_no_key) w i out
            = Fatal ''OPENAI_API_KEY not set in environment variables'')
   \<and> sys_step id ([''EDITOR'' \<mapsto> ''vi''] ++ os_env env_no_key)
        (sys_init\<lparr>mdl := initialModel\<lparr>showDetails := True, loadingExample := True\<rparr>,
                   outstanding := [(ExampleWords ! 0, 0)]\<rparr>)
        (FetchDone 0 (Response [] [''s'']))
       = Inr (sys_init\<lparr>mdl := initialModel\<lparr>showDetails := True, loadingExample := True\<rparr>,
                        outstanding := [],
                        status := Aborted ''OPENAI_API_KEY not set in environment variables''\<rparr>)"
proof -
  let ?env = "[''EDITOR'' \<mapsto> ''vi''] ++ os_env env_no_key"
  let ?s = "sys_init\<lparr>mdl := initialModel\<lparr>showDetails := True, loadingExample := True\<rparr>,
                      outstanding := [(ExampleWords ! 0, 0)]\<rparr>"
  have h: "dotenv_file env_no_key = Some [''EDITOR'' \<mapsto> ''vi'']"
    "dotenv_file env_no_dotenv = None"
    "Getenv ?env ''OPENAI_API_KEY'' = []"
    "status ?s = Running" "0 < length (outstanding ?s)"
    by (simp_all add: env_no_key_def env_no_dotenv_def Getenv_def sys_init_def)
  have r: "sys_run id ?env [Key KeyEnter] sys_init = Inr ?s"
    by (simp add: run_defs init_fields length_ExampleWords)
  have e: "?s\<lparr>outstanding := take 0 (outstanding ?s) @ drop (Suc 0) (outstanding ?s),
             status := Aborted ''OPENAI_API_KEY not set in environment variables''\<rparr>
      = sys_init\<lparr>mdl := initialModel\<lparr>showDetails := True, loadingExample := True\<rparr>,
                  outstanding := [],
                  status := Aborted ''OPENAI_API_KEY not set in environment variables''\<rparr>"
    by simp
  show ?thesis
    using h(1,2,3) r
      missing_key_fatal_at_fetch [OF h, of id "Response [] [''s'']"]
    by (simp only: e simp_thms)
qed

text \<open>
  The claim as stated fails: with an empty environment and an empty \<open>.env\<close> file the
  credential is missing, \<open>main\<close> does not abort and starts the loop on the initial state;
  the process aborts inside the loop, when the first fetch runs.
\<close>

theorem missing_key_enters_loop:
  "getAPIKey Map.empty = Fatal ''OPENAI_API_KEY not set in environment variables''
   \<and> main_start \<lparr>os_env = Map.empty, dotenv_file = Some Map.empty\<rparr> = Ret (Map.empty, sys_init)
   \<and> map_sum id status
       (sys_run id Map.empty [Key KeyEnter, FetchDone 0 (Response [] [''x''])] sys_init)
       = Inr (Aborted ''OPENAI_API_KEY not set in environment variables'')"
  by (simp add: main_start_def initEnv_def getAPIKey_def Getenv_def fetchExample_def run_defs
      init_fields length_ExampleWords)


end
